theory Spec2Isabelle
  imports Main "HOL-Library.Word"
begin

section \<open>JavaScript values used by the handler\<close>

text \<open>
  A JavaScript string is a sequence of 16-bit code units. Program literals are written as
  Isabelle strings and converted with \<open>lit\<close>.
\<close>

type_synonym jsstring = "16 word list"

definition lit :: "string \<Rightarrow> jsstring" where
  "lit s = map of_char s"

text \<open>
  The values a request field or a relay identifier can hold: \<open>undefined\<close> (the property is
  absent) and the JSON primitives. \<open>JNum n\<close> is an integer-valued Number of magnitude below
  \<open>2^53\<close>, where Number arithmetic is exact. Fields holding nested arrays or objects, and
  fractional numbers, are outside this model.
\<close>

datatype jsval = JUndefined | JNull | JBool bool | JNum int | JStr jsstring

text \<open>ToBoolean, as used by \<open>if (v)\<close>, \<open>!v\<close>, \<open>!!v\<close> and \<open>a || b\<close>.\<close>

fun truthy :: "jsval \<Rightarrow> bool" where
  "truthy JUndefined = False"
| "truthy JNull = False"
| "truthy (JBool b) = b"
| "truthy (JNum n) = (n \<noteq> 0)"
| "truthy (JStr s) = (s \<noteq> [])"

definition js_or :: "jsval \<Rightarrow> jsval \<Rightarrow> jsval" where
  "js_or a b = (if truthy a then a else b)"

text \<open>Decimal digits of a natural number, most significant first.\<close>

fun nat_digits :: "nat \<Rightarrow> jsstring" where
  "nat_digits n =
     (if n < 10 then [of_nat (48 + n)]
      else nat_digits (n div 10) @ [of_nat (48 + n mod 10)])"

declare nat_digits.simps [simp del]

text \<open>ToString, as applied by template literals, \<open>parseInt\<close> and \<open>RegExp.prototype.test\<close>.\<close>

fun toString :: "jsval \<Rightarrow> jsstring" where
  "toString JUndefined = lit ''undefined''"
| "toString JNull = lit ''null''"
| "toString (JBool b) = (if b then lit ''true'' else lit ''false'')"
| "toString (JNum n) = (if n < 0 then 45 # nat_digits (nat (- n)) else nat_digits (nat n))"
| "toString (JStr s) = s"

text \<open>
  The code units matched by \<open>\s\<close> in a regular expression and skipped by \<open>parseInt\<close>:
  WhiteSpace and LineTerminator of ECMAScript.
\<close>

definition is_space :: "16 word \<Rightarrow> bool" where
  "is_space c \<longleftrightarrow>
     c = 0x9 \<or> c = 0xA \<or> c = 0xB \<or> c = 0xC \<or> c = 0xD \<or> c = 0x20 \<or> c = 0xA0 \<or>
     c = 0x1680 \<or> (0x2000 \<le> c \<and> c \<le> 0x200A) \<or> c = 0x2028 \<or> c = 0x2029 \<or>
     c = 0x202F \<or> c = 0x205F \<or> c = 0x3000 \<or> c = 0xFEFF"

definition is_digit :: "16 word \<Rightarrow> bool" where
  "is_digit c \<longleftrightarrow> 48 \<le> c \<and> c \<le> 57"

definition digits_value :: "jsstring \<Rightarrow> int" where
  "digits_value z = foldl (\<lambda>a c. 10 * a + (uint c - 48)) 0 z"

text \<open>
  \<open>parseInt(v, 10)\<close> on the string form of \<open>v\<close>: skip leading white space, read an optional
  sign, then the longest run of decimal digits. \<open>None\<close> is NaN (no digit was found).
  The result is the exact integer the digits denote; a Number holds it exactly while its
  magnitude is below \<open>2^53\<close>.
\<close>

definition parseInt :: "jsstring \<Rightarrow> int option" where
  "parseInt input =
     (let s = dropWhile is_space input;
          neg = (case s of [] \<Rightarrow> False | c # _ \<Rightarrow> c = 45);
          s' = (case s of [] \<Rightarrow> [] | c # cs \<Rightarrow> if c = 43 \<or> c = 45 then cs else s);
          z = takeWhile is_digit s'
      in if z = [] then None
         else Some (if neg then - digits_value z else digits_value z))"

section \<open>The rate limiter\<close>

record entry =
  windowStart :: int
  count :: int

type_synonym rateLimit = "jsstring \<rightharpoonup> entry"

definition RATE_LIMIT_WINDOW :: int where
  "RATE_LIMIT_WINDOW = 60 * 1000"

definition RATE_LIMIT_MAX :: int where
  "RATE_LIMIT_MAX = 3"

definition MIN_SUBMIT_TIME :: int where
  "MIN_SUBMIT_TIME = 3000"

text \<open>
  \<open>isRateLimited ip now rl\<close>: \<open>now\<close> is the value \<open>Date.now()\<close> returned, \<open>rl\<close> the map
  before the call. The result is the map after the call and the returned boolean. The
  entry read from the map is the stored object itself, so \<open>entry.count++\<close> changes the map.
  Times and counts are Numbers holding integers; they are exact below \<open>2^53\<close>.
\<close>

definition isRateLimited :: "jsstring \<Rightarrow> int \<Rightarrow> rateLimit \<Rightarrow> rateLimit \<times> bool" where
  "isRateLimited ip now rl =
     (case rl ip of
        None \<Rightarrow> (rl(ip \<mapsto> \<lparr>windowStart = now, count = 1\<rparr>), False)
      | Some e \<Rightarrow>
          if now - windowStart e > RATE_LIMIT_WINDOW
          then (rl(ip \<mapsto> \<lparr>windowStart = now, count = 1\<rparr>), False)
          else
            (let e' = e\<lparr>count := count e + 1\<rparr>; rl' = rl(ip \<mapsto> e')
             in if count e' > RATE_LIMIT_MAX then (rl', True) else (rl', False)))"

section \<open>The email pattern\<close>

text \<open>
  \<open>/^[^\s@]+@[^\s@]+\.[^\s@]+$/\<close> as a sequence of atoms. An atom maps a string to the
  remainders it can leave after matching a prefix; \<open>+\<close> may stop after any number of
  code units of its class, so it leaves several. The pattern is anchored at both ends:
  \<open>test\<close> holds when some way of matching leaves the empty remainder.
\<close>

datatype rx_atom = NotSpaceAt_plus | CodeUnit "16 word"

fun plus_rests :: "jsstring \<Rightarrow> jsstring list" where
  "plus_rests [] = []"
| "plus_rests (c # cs) = (if is_space c \<or> c = 64 then [] else cs # plus_rests cs)"

fun atom_rests :: "rx_atom \<Rightarrow> jsstring \<Rightarrow> jsstring list" where
  "atom_rests NotSpaceAt_plus s = plus_rests s"
| "atom_rests (CodeUnit a) [] = []"
| "atom_rests (CodeUnit a) (c # cs) = (if c = a then [cs] else [])"

fun seq_rests :: "rx_atom list \<Rightarrow> jsstring \<Rightarrow> jsstring list" where
  "seq_rests [] s = [s]"
| "seq_rests (a # as) s = concat (map (seq_rests as) (atom_rests a s))"

definition emailRegex :: "rx_atom list" where
  "emailRegex = [NotSpaceAt_plus, CodeUnit 64, NotSpaceAt_plus, CodeUnit 46, NotSpaceAt_plus]"

definition emailRegex_test :: "jsval \<Rightarrow> bool" where
  "emailRegex_test v \<longleftrightarrow> [] \<in> set (seq_rests emailRegex (toString v))"

text \<open>
  The shape in the words of the specification: no white space, exactly one \<open>@\<close>, and a
  \<open>.\<close> after the \<open>@\<close> with a non-empty segment on each side.
\<close>

definition local_at_domain_tld :: "jsstring \<Rightarrow> bool" where
  "local_at_domain_tld s \<longleftrightarrow>
     (\<forall>c \<in> set s. \<not> is_space c) \<and> count_list s 64 = 1 \<and>
     (\<exists>l d t. s = l @ [64] @ d @ [46] @ t \<and> l \<noteq> [] \<and> d \<noteq> [] \<and> t \<noteq> [])"

section \<open>Requests, the environment and observable effects\<close>

record submission =
  name :: jsval
  email :: jsval
  phone :: jsval
  service :: jsval
  message :: jsval
  website :: jsval
  timestamp :: jsval

text \<open>
  \<open>req.body\<close>: absent, \<open>null\<close>, a text body, or a parsed object. Properties of the object
  other than the seven read by the handler are not represented.
\<close>

datatype req_body = BodyUndefined | BodyNull | BodyText jsstring | BodyObject submission

record request =
  http_method :: jsstring
  x_forwarded_for :: "jsstring option"
  x_real_ip :: "jsstring option"
  body :: req_body

text \<open>
  What \<open>await fetch(...)\<close> and \<open>await response.json()\<close> produce. \<open>NotJson\<close>: the body
  does not parse, \<open>response.json()\<close> rejects. \<open>JsonNull\<close>: the body is \<open>null\<close>, reading
  \<open>data.id\<close> throws. \<open>JsonValue i\<close>: any other JSON value, \<open>i\<close> being what \<open>data.id\<close>
  reads (\<open>JUndefined\<close> when there is no such property).
\<close>

datatype relay_json = NotJson | JsonNull | JsonValue jsval

datatype relay_outcome = FetchRejects | FetchResolves bool relay_json

text \<open>
  What one invocation reads from outside: the two readings of \<open>Date.now()\<close> (in
  \<open>isRateLimited\<close> and in the timestamp check), the configured credential and the
  relay's behaviour.
\<close>

record env =
  now_rate :: int
  now_submit :: int
  RESEND_API_KEY :: jsval
  relay :: relay_outcome

record relay_message =
  url :: jsstring
  authorization :: jsstring
  content_type :: jsstring
  from_addr :: jsstring
  to_addrs :: "jsstring list"
  subject :: jsstring
  reply_to :: jsval
  html :: jsstring

datatype res_json =
    ErrorJson string
  | ErrorDetailsJson string bool bool bool
  | SuccessJson
  | SuccessIdJson jsval

datatype caught = TypeError | FetchRejected | JsonRejected

datatype log_entry =
    MissingFieldsLog bool bool bool req_body
  | ResendErrorLog relay_json
  | ServerErrorLog caught

text \<open>
  The effects of one invocation, in the order they happen: \<open>console.error\<close> calls, the
  \<open>fetch\<close> call to the relay, and the response (status and JSON body).
\<close>

datatype event = ConsoleError log_entry | Fetch relay_message | Respond nat res_json

fun is_fetch :: "event \<Rightarrow> bool" where
  "is_fetch (Fetch m) = True"
| "is_fetch e = False"

fun is_log :: "event \<Rightarrow> bool" where
  "is_log (ConsoleError l) = True"
| "is_log e = False"

definition relay_calls :: "event list \<Rightarrow> event list" where
  "relay_calls evs = filter is_fetch evs"

definition error_logs :: "event list \<Rightarrow> event list" where
  "error_logs evs = filter is_log evs"

section \<open>The handler\<close>

definition header_or :: "jsstring option \<Rightarrow> jsstring \<Rightarrow> jsstring" where
  "header_or h d = (case h of None \<Rightarrow> d | Some s \<Rightarrow> if s = [] then d else s)"

definition client_ip :: "request \<Rightarrow> jsstring" where
  "client_ip req =
     header_or (x_forwarded_for req) (header_or (x_real_ip req) (lit ''unknown''))"

definition no_fields :: submission where
  "no_fields = \<lparr>name = JUndefined, email = JUndefined, phone = JUndefined,
     service = JUndefined, message = JUndefined, website = JUndefined,
     timestamp = JUndefined\<rparr>"

text \<open>\<open>const {...} = req.body || {}\<close>: a falsy or non-object body has none of the fields.\<close>

fun fields_of :: "req_body \<Rightarrow> submission" where
  "fields_of (BodyObject s) = s"
| "fields_of b = no_fields"

definition replace_newlines :: "jsstring \<Rightarrow> jsstring" where
  "replace_newlines m = concat (map (\<lambda>c. if c = 10 then lit ''<br>'' else [c]) m)"

definition indent :: "nat \<Rightarrow> jsstring" where
  "indent n = 10 # replicate n 32"

definition build_message :: "jsval \<Rightarrow> submission \<Rightarrow> jsstring \<Rightarrow> relay_message" where
  "build_message key s m =
     \<lparr>url = lit ''https://api.resend.com/emails'',
      authorization = lit ''Bearer '' @ toString key,
      content_type = lit ''application/json'',
      from_addr = lit ''Top Gun Maintenance <Julian@topgunmaintenance.com>'',
      to_addrs = [lit ''Julian@topgunmaintenance.com''],
      subject = lit ''New Contact: '' @ toString (js_or (service s) (JStr (lit ''General Inquiry'')))
                @ lit '' - '' @ toString (name s),
      reply_to = email s,
      html = concat
        [indent 10, lit ''<h2>New Contact Form Submission</h2>'',
         indent 10, lit ''<p><strong>Name:</strong> '', toString (name s), lit ''</p>'',
         indent 10, lit ''<p><strong>Email:</strong> '', toString (email s), lit ''</p>'',
         indent 10, lit ''<p><strong>Phone:</strong> '',
           toString (js_or (phone s) (JStr (lit ''Not provided''))), lit ''</p>'',
         indent 10, lit ''<p><strong>Service:</strong> '',
           toString (js_or (service s) (JStr (lit ''Not specified''))), lit ''</p>'',
         indent 10, lit ''<hr>'',
         indent 10, lit ''<p><strong>Message:</strong></p>'',
         indent 10, lit ''<p>'', replace_newlines m, lit ''</p>'',
         indent 8]\<rparr>"

text \<open>The \<open>catch\<close> block.\<close>

definition server_error :: "caught \<Rightarrow> event list" where
  "server_error e = [ConsoleError (ServerErrorLog e), Respond 500 (ErrorJson ''Server error'')]"

text \<open>
  The \<open>try\<close> block. The argument of \<open>fetch\<close> is built first: \<open>message.replace\<close> is a
  function only when \<open>message\<close> is a string, otherwise the call throws before any request
  is made.
\<close>

definition send_email :: "env \<Rightarrow> submission \<Rightarrow> event list" where
  "send_email ev s =
     (case message s of
        JStr m \<Rightarrow>
          Fetch (build_message (RESEND_API_KEY ev) s m) #
          (case relay ev of
             FetchRejects \<Rightarrow> server_error FetchRejected
           | FetchResolves ok data \<Rightarrow>
               if data = NotJson then server_error JsonRejected
               else if \<not> ok
               then [ConsoleError (ResendErrorLog data),
                     Respond 500 (ErrorJson ''Failed to send email'')]
               else (case data of
                       JsonValue i \<Rightarrow> [Respond 200 (SuccessIdJson i)]
                     | _ \<Rightarrow> server_error TypeError))
      | _ \<Rightarrow> server_error TypeError)"

text \<open>Required-field and email-format validation, then dispatch.\<close>

definition validate_and_send :: "request \<Rightarrow> env \<Rightarrow> event list" where
  "validate_and_send req ev =
     (let s = fields_of (body req) in
      if \<not> truthy (name s) \<or> \<not> truthy (email s) \<or> \<not> truthy (message s)
      then [ConsoleError (MissingFieldsLog (truthy (name s)) (truthy (email s))
                            (truthy (message s)) (body req)),
            Respond 400 (ErrorDetailsJson ''Missing required fields''
                            (truthy (name s)) (truthy (email s)) (truthy (message s)))]
      else if \<not> emailRegex_test (email s)
      then [Respond 400 (ErrorJson ''Invalid email format'')]
      else send_email ev s)"

text \<open>
  The timestamp check: \<open>Date.now() - parseInt(timestamp, 10) < MIN_SUBMIT_TIME\<close>. With
  NaN the difference is NaN and the comparison is false.
\<close>

definition too_fast :: "int \<Rightarrow> jsval \<Rightarrow> bool" where
  "too_fast now ts \<longleftrightarrow>
     truthy ts \<and>
     (case parseInt (toString ts) of
        None \<Rightarrow> False
      | Some t \<Rightarrow> now - t < MIN_SUBMIT_TIME)"

text \<open>Everything after the rate-limit guard.\<close>

definition after_rate_limit :: "request \<Rightarrow> env \<Rightarrow> event list" where
  "after_rate_limit req ev =
     (let s = fields_of (body req) in
      if truthy (website s) then [Respond 200 SuccessJson]
      else if too_fast (now_submit ev) (timestamp s) then [Respond 200 SuccessJson]
      else validate_and_send req ev)"

definition handler :: "request \<Rightarrow> env \<Rightarrow> rateLimit \<Rightarrow> rateLimit \<times> event list" where
  "handler req ev rl =
     (if http_method req \<noteq> lit ''POST''
      then (rl, [Respond 405 (ErrorJson ''Method not allowed'')])
      else
        (case isRateLimited (client_ip req) (now_rate ev) rl of
           (rl', limited) \<Rightarrow>
             if limited
             then (rl', [Respond 429 (ErrorJson ''Too many requests. Please try again later.'')])
             else (rl', after_rate_limit req ev)))"

text \<open>
  Serving a sequence of requests from a given map. The handler touches the map only before
  its first \<open>await\<close>, so the invocations change it one after the other, in arrival order.
\<close>

fun serve :: "rateLimit \<Rightarrow> (request \<times> env) list \<Rightarrow> rateLimit \<times> event list list" where
  "serve rl [] = (rl, [])"
| "serve rl ((req, ev) # rest) =
     (case handler req ev rl of
        (rl', evs) \<Rightarrow> (case serve rl' rest of (rl'', out) \<Rightarrow> (rl'', evs # out)))"

section \<open>Vocabulary for the properties\<close>

text \<open>The request is a POST and \<open>isRateLimited\<close> returns \<open>false\<close> for it.\<close>

definition passes_rate_limit :: "request \<Rightarrow> env \<Rightarrow> rateLimit \<Rightarrow> bool" where
  "passes_rate_limit req ev rl \<longleftrightarrow>
     http_method req = lit ''POST'' \<and> \<not> snd (isRateLimited (client_ip req) (now_rate ev) rl)"

text \<open>Neither the honeypot check nor the timestamp check fires.\<close>

definition passes_bot_guards :: "request \<Rightarrow> env \<Rightarrow> bool" where
  "passes_bot_guards req ev \<longleftrightarrow>
     \<not> truthy (website (fields_of (body req))) \<and>
     \<not> too_fast (now_submit ev) (timestamp (fields_of (body req)))"

definition has_required_fields :: "request \<Rightarrow> bool" where
  "has_required_fields req \<longleftrightarrow>
     truthy (name (fields_of (body req))) \<and> truthy (email (fields_of (body req))) \<and>
     truthy (message (fields_of (body req)))"

text \<open>The POST requests of a sequence that come from address \<open>a\<close>.\<close>

definition posts_from :: "jsstring \<Rightarrow> (request \<times> env) list \<Rightarrow> (request \<times> env) list" where
  "posts_from a xs = filter (\<lambda>(r, e). http_method r = lit ''POST'' \<and> client_ip r = a) xs"

text \<open>A non-empty run of code units of the class \<open>[^\s@]\<close>.\<close>

definition segment :: "jsstring \<Rightarrow> bool" where
  "segment p \<longleftrightarrow> p \<noteq> [] \<and> (\<forall>c \<in> set p. \<not> is_space c \<and> c \<noteq> 64)"

text \<open>Sample inputs, used to instantiate the theorems.\<close>

definition sample_fields :: submission where
  "sample_fields = \<lparr>name = JStr (lit ''Ann''), email = JStr (lit ''ann@example.com''),
     phone = JUndefined, service = JUndefined, message = JStr (lit ''Hi''),
     website = JUndefined, timestamp = JUndefined\<rparr>"

definition post_from :: "string \<Rightarrow> req_body \<Rightarrow> request" where
  "post_from a b = \<lparr>http_method = lit ''POST'', x_forwarded_for = Some (lit a),
     x_real_ip = None, body = b\<rparr>"

definition at_time :: "int \<Rightarrow> relay_outcome \<Rightarrow> env" where
  "at_time t r = \<lparr>now_rate = t, now_submit = t, RESEND_API_KEY = JStr (lit ''k''), relay = r\<rparr>"

section \<open>Basic facts\<close>

lemmas sample_defs = post_from_def at_time_def sample_fields_def client_ip_def header_or_def
  lit_def

lemma handler_post:
  "http_method req = lit ''POST'' \<Longrightarrow>
   handler req ev rl =
     (fst (isRateLimited (client_ip req) (now_rate ev) rl),
      if snd (isRateLimited (client_ip req) (now_rate ev) rl)
      then [Respond 429 (ErrorJson ''Too many requests. Please try again later.'')]
      else after_rate_limit req ev)"
  by (simp add: handler_def split: prod.split)

lemma handler_passes:
  "passes_rate_limit req ev rl \<Longrightarrow> snd (handler req ev rl) = after_rate_limit req ev"
  by (simp add: passes_rate_limit_def handler_post)

lemma isRateLimited_fresh:
  "\<forall>e. rl ip = Some e \<longrightarrow> RATE_LIMIT_WINDOW < now - windowStart e \<Longrightarrow>
   isRateLimited ip now rl = (rl(ip \<mapsto> \<lparr>windowStart = now, count = 1\<rparr>), False)"
  by (simp add: isRateLimited_def split: option.split)

lemma isRateLimited_in_window:
  "rl ip = Some e \<Longrightarrow> now - windowStart e \<le> RATE_LIMIT_WINDOW \<Longrightarrow>
   isRateLimited ip now rl =
     (rl(ip \<mapsto> e\<lparr>count := count e + 1\<rparr>), RATE_LIMIT_MAX < count e + 1)"
  by (simp add: isRateLimited_def Let_def)

lemma isRateLimited_other: "a \<noteq> ip \<Longrightarrow> fst (isRateLimited ip now rl) a = rl a"
  by (simp add: isRateLimited_def Let_def split: option.split)

lemma send_email_no_429: "Respond 429 b \<notin> set (send_email ev s)"
  by (simp add: send_email_def server_error_def
      split: jsval.split relay_outcome.split relay_json.split)

lemma after_rate_limit_no_429: "Respond 429 b \<notin> set (after_rate_limit req ev)"
  by (simp add: after_rate_limit_def validate_and_send_def Let_def send_email_no_429)

lemma build_message_timestamp:
  "build_message k (s\<lparr>timestamp := x\<rparr>) m = build_message k s m"
  by (simp add: build_message_def)

lemma send_email_timestamp: "send_email ev (s\<lparr>timestamp := x\<rparr>) = send_email ev s"
  by (cases "message s") (simp_all add: send_email_def build_message_timestamp)

lemma handler_map_other:
  "\<not> (http_method req = lit ''POST'' \<and> client_ip req = a) \<Longrightarrow>
   fst (handler req ev rl) a = rl a"
proof (cases "http_method req = lit ''POST''")
  case True
  moreover assume "\<not> (http_method req = lit ''POST'' \<and> client_ip req = a)"
  ultimately show ?thesis
    by (auto simp add: handler_post isRateLimited_other)
next
  case False
  then show ?thesis by (simp add: handler_def)
qed

lemma handler_map_in_window:
  "http_method req = lit ''POST'' \<Longrightarrow> rl (client_ip req) = Some e \<Longrightarrow>
   now_rate ev - windowStart e \<le> RATE_LIMIT_WINDOW \<Longrightarrow>
   fst (handler req ev rl) (client_ip req) = Some (e\<lparr>count := count e + 1\<rparr>)"
  by (simp add: handler_post isRateLimited_in_window)

lemma handler_over_limit:
  "http_method req = lit ''POST'' \<Longrightarrow> rl (client_ip req) = Some e \<Longrightarrow>
   now_rate ev - windowStart e \<le> RATE_LIMIT_WINDOW \<Longrightarrow> RATE_LIMIT_MAX < count e + 1 \<Longrightarrow>
   snd (handler req ev rl) =
     [Respond 429 (ErrorJson ''Too many requests. Please try again later.'')]"
  by (simp add: handler_post isRateLimited_in_window)

subsection \<open>Sequences of requests\<close>

lemma serve_Cons_fst:
  "fst (serve rl ((r, e) # xs)) = fst (serve (fst (handler r e rl)) xs)"
  by (simp split: prod.split)

lemma serve_Cons_snd:
  "snd (serve rl ((r, e) # xs)) =
     snd (handler r e rl) # snd (serve (fst (handler r e rl)) xs)"
  by (simp split: prod.split)

declare serve.simps(2) [simp del]
declare serve_Cons_fst [simp] serve_Cons_snd [simp]

text \<open>The response to the \<open>i\<close>-th request is the handler's, on the map the earlier ones left.\<close>

lemma serve_nth:
  "i < length xs \<Longrightarrow>
   snd (serve rl xs) ! i =
     snd (handler (fst (xs ! i)) (snd (xs ! i)) (fst (serve rl (take i xs))))"
proof (induction xs arbitrary: rl i)
  case Nil
  then show ?case by simp
next
  case (Cons x xs)
  obtain r e where x: "x = (r, e)" by (cases x)
  show ?case
  proof (cases i)
    case 0
    then show ?thesis by (simp add: x)
  next
    case (Suc j)
    with Cons.prems have "j < length xs" by simp
    from Cons.IH [OF this] show ?thesis
      by (simp add: x Suc)
  qed
qed

text \<open>
  While every POST from \<open>a\<close> stays inside the window of \<open>a\<close>'s entry, the entry keeps its
  \<open>windowStart\<close> and its count grows by the number of those POSTs.
\<close>

lemma serve_counts:
  "rl a = Some e \<Longrightarrow>
   \<forall>(r, ev) \<in> set xs. http_method r = lit ''POST'' \<and> client_ip r = a
      \<longrightarrow> now_rate ev - windowStart e \<le> RATE_LIMIT_WINDOW \<Longrightarrow>
   fst (serve rl xs) a = Some (e\<lparr>count := count e + int (length (posts_from a xs))\<rparr>)"
proof (induction xs arbitrary: rl e)
  case Nil
  then show ?case by (simp add: posts_from_def)
next
  case (Cons x xs)
  obtain r ev where x: "x = (r, ev)" by (cases x)
  let ?rl' = "fst (handler r ev rl)"
  have step: "fst (serve rl (x # xs)) a = fst (serve ?rl' xs) a"
    by (simp add: x)
  show ?case
  proof (cases "http_method r = lit ''POST'' \<and> client_ip r = a")
    case True
    with Cons.prems x have inw: "now_rate ev - windowStart e \<le> RATE_LIMIT_WINDOW" by auto
    have e': "?rl' a = Some (e\<lparr>count := count e + 1\<rparr>)"
      using handler_map_in_window [of r rl e ev] True Cons.prems(1) inw by simp
    have rest: "\<forall>(r, ev) \<in> set xs. http_method r = lit ''POST'' \<and> client_ip r = a
        \<longrightarrow> now_rate ev - windowStart (e\<lparr>count := count e + 1\<rparr>) \<le> RATE_LIMIT_WINDOW"
      using Cons.prems(2) by auto
    from Cons.IH [of ?rl' "e\<lparr>count := count e + 1\<rparr>", OF e' rest] show ?thesis
      using True by (simp add: step posts_from_def x)
  next
    case False
    then have e': "?rl' a = Some e"
      using handler_map_other [of r a ev rl] Cons.prems(1) by simp
    have rest: "\<forall>(r, ev) \<in> set xs. http_method r = lit ''POST'' \<and> client_ip r = a
        \<longrightarrow> now_rate ev - windowStart e \<le> RATE_LIMIT_WINDOW"
      using Cons.prems(2) by auto
    from Cons.IH [of ?rl' e, OF e' rest] show ?thesis
      using False by (auto simp add: step posts_from_def x)
  qed
qed

text \<open>
  A request opens a window at \<open>r0\<close>; the request at position \<open>i\<close> of those that follow comes
  from the same address, inside that window, after at least two others from it.
\<close>

lemma fourth_request_in_window:
  assumes post0: "http_method r0 = lit ''POST''"
    and opens: "\<forall>e. rl (client_ip r0) = Some e
                  \<longrightarrow> RATE_LIMIT_WINDOW < now_rate e0 - windowStart e"
    and i: "i < length rest"
    and inw: "\<forall>(r, ev) \<in> set (take (Suc i) rest).
               http_method r = lit ''POST'' \<and> client_ip r = client_ip r0
               \<longrightarrow> now_rate ev - now_rate e0 \<le> RATE_LIMIT_WINDOW"
    and ri: "http_method (fst (rest ! i)) = lit ''POST'' \<and>
             client_ip (fst (rest ! i)) = client_ip r0"
    and k: "2 \<le> length (posts_from (client_ip r0) (take i rest))"
  shows "snd (serve rl ((r0, e0) # rest)) ! Suc i =
           [Respond 429 (ErrorJson ''Too many requests. Please try again later.'')]"
proof -
  let ?a = "client_ip r0"
  let ?w = "\<lparr>windowStart = now_rate e0, count = 1\<rparr>"
  let ?rl1 = "rl(?a \<mapsto> ?w)"
  have h0: "handler r0 e0 rl = (?rl1, after_rate_limit r0 e0)"
    using post0 opens by (simp add: handler_post isRateLimited_fresh)
  have nth: "snd (serve rl ((r0, e0) # rest)) ! Suc i = snd (serve ?rl1 rest) ! i"
    by (simp add: h0)
  have inw': "\<forall>(r, ev) \<in> set (take i rest).
               http_method r = lit ''POST'' \<and> client_ip r = ?a
               \<longrightarrow> now_rate ev - windowStart ?w \<le> RATE_LIMIT_WINDOW"
    using inw by (auto dest: in_set_takeD simp add: take_Suc_conv_app_nth [OF i])
  have st: "fst (serve ?rl1 (take i rest)) ?a =
              Some (?w\<lparr>count := count ?w + int (length (posts_from ?a (take i rest)))\<rparr>)"
    by (rule serve_counts [of ?rl1 ?a ?w, OF _ inw']) simp
  have mem: "rest ! i \<in> set (take (Suc i) rest)"
    using i by (simp add: take_Suc_conv_app_nth)
  have now_i: "now_rate (snd (rest ! i)) - now_rate e0 \<le> RATE_LIMIT_WINDOW"
    using inw mem ri by (cases "rest ! i") auto
  have "snd (handler (fst (rest ! i)) (snd (rest ! i)) (fst (serve ?rl1 (take i rest))))
          = [Respond 429 (ErrorJson ''Too many requests. Please try again later.'')]"
    apply (rule handler_over_limit
        [where e = "?w\<lparr>count := count ?w + int (length (posts_from ?a (take i rest)))\<rparr>"])
    using ri st now_i k by (simp_all add: RATE_LIMIT_MAX_def)
  then show ?thesis
    using nth serve_nth [OF i, of ?rl1] by simp
qed

subsection \<open>The language of the email pattern\<close>

lemma plus_rests_iff:
  "r \<in> set (plus_rests s) \<longleftrightarrow> (\<exists>p. segment p \<and> s = p @ r)"
proof (induction s)
  case Nil
  then show ?case by (simp add: segment_def)
next
  case (Cons c cs)
  show ?case
  proof
    assume "r \<in> set (plus_rests (c # cs))"
    then have ok: "\<not> is_space c \<and> c \<noteq> 64" and "r = cs \<or> r \<in> set (plus_rests cs)"
      by (auto split: if_splits)
    then show "\<exists>p. segment p \<and> c # cs = p @ r"
    proof (elim disjE)
      assume "r = cs"
      with ok have "segment [c] \<and> c # cs = [c] @ r" by (simp add: segment_def)
      then show ?thesis by blast
    next
      assume "r \<in> set (plus_rests cs)"
      with Cons.IH obtain p where "segment p" "cs = p @ r" by blast
      with ok have "segment (c # p) \<and> c # cs = (c # p) @ r" by (simp add: segment_def)
      then show ?thesis by blast
    qed
  next
    assume "\<exists>p. segment p \<and> c # cs = p @ r"
    then obtain p where p: "segment p" "c # cs = p @ r" by blast
    then obtain q where q: "p = c # q" "cs = q @ r"
      by (cases p) (auto simp add: segment_def)
    with p have ok: "\<not> is_space c \<and> c \<noteq> 64" by (simp add: segment_def)
    show "r \<in> set (plus_rests (c # cs))"
    proof (cases "q = []")
      case True
      with q ok show ?thesis by simp
    next
      case False
      with p q have "segment q" by (simp add: segment_def)
      with q Cons.IH have "r \<in> set (plus_rests cs)" by blast
      with ok show ?thesis by simp
    qed
  qed
qed

lemma char_rests_iff: "r \<in> set (atom_rests (CodeUnit a) s) \<longleftrightarrow> s = a # r"
  by (cases s) auto

lemma emailRegex_language:
  "[] \<in> set (seq_rests emailRegex s) \<longleftrightarrow>
     (\<exists>l d t. segment l \<and> segment d \<and> segment t \<and> s = l @ [64] @ d @ [46] @ t)"
proof -
  have "[] \<in> set (seq_rests emailRegex s) \<longleftrightarrow>
        (\<exists>r1 r2 r3 r4. r1 \<in> set (plus_rests s) \<and> r2 \<in> set (atom_rests (CodeUnit 64) r1) \<and>
           r3 \<in> set (plus_rests r2) \<and> r4 \<in> set (atom_rests (CodeUnit 46) r3) \<and>
           [] \<in> set (plus_rests r4))"
    by (simp add: emailRegex_def Bex_def)
  also have "\<dots> \<longleftrightarrow>
        (\<exists>r1 r2 r3 r4. (\<exists>l. segment l \<and> s = l @ r1) \<and> r1 = 64 # r2 \<and>
           (\<exists>d. segment d \<and> r2 = d @ r3) \<and> r3 = 46 # r4 \<and> segment r4)"
    by (simp add: plus_rests_iff char_rests_iff)
  also have "\<dots> \<longleftrightarrow>
        (\<exists>l d t. segment l \<and> segment d \<and> segment t \<and> s = l @ [64] @ d @ [46] @ t)"
  proof
    assume "\<exists>r1 r2 r3 r4. (\<exists>l. segment l \<and> s = l @ r1) \<and> r1 = 64 # r2 \<and>
           (\<exists>d. segment d \<and> r2 = d @ r3) \<and> r3 = 46 # r4 \<and> segment r4"
    then obtain r1 r2 r3 r4 l d where "segment l" "s = l @ r1" "r1 = 64 # r2"
      "segment d" "r2 = d @ r3" "r3 = 46 # r4" "segment r4" by blast
    then have "segment l \<and> segment d \<and> segment r4 \<and> s = l @ [64] @ d @ [46] @ r4" by simp
    then show "\<exists>l d t. segment l \<and> segment d \<and> segment t \<and> s = l @ [64] @ d @ [46] @ t"
      by blast
  next
    assume "\<exists>l d t. segment l \<and> segment d \<and> segment t \<and> s = l @ [64] @ d @ [46] @ t"
    then obtain l d t where h: "segment l" "segment d" "segment t" "s = l @ [64] @ d @ [46] @ t"
      by blast
    have "(\<exists>l'. segment l' \<and> s = l' @ (64 # d @ 46 # t)) \<and>
          64 # d @ 46 # t = 64 # (d @ 46 # t) \<and>
          (\<exists>d'. segment d' \<and> d @ 46 # t = d' @ (46 # t)) \<and> 46 # t = 46 # t \<and> segment t"
      using h by auto
    then show "\<exists>r1 r2 r3 r4. (\<exists>l. segment l \<and> s = l @ r1) \<and> r1 = 64 # r2 \<and>
           (\<exists>d. segment d \<and> r2 = d @ r3) \<and> r3 = 46 # r4 \<and> segment r4"
      by blast
  qed
  finally show ?thesis .
qed

lemma at_dot_not_space: "\<not> is_space 64" "\<not> is_space 46"
  by (simp_all add: is_space_def)

lemma segment_count: "segment p \<Longrightarrow> count_list p 64 = 0"
  by (simp add: segment_def count_list_0_iff) blast

text \<open>The pattern accepts exactly the strings of the shape the specification describes.\<close>

lemma emailRegex_shape:
  "[] \<in> set (seq_rests emailRegex s) \<longleftrightarrow> local_at_domain_tld s"
proof
  assume "[] \<in> set (seq_rests emailRegex s)"
  then obtain l d t where seg: "segment l" "segment d" "segment t"
    and s: "s = l @ [64] @ d @ [46] @ t"
    by (auto simp add: emailRegex_language)
  have "\<forall>c \<in> set s. \<not> is_space c"
    using seg by (auto simp add: s segment_def at_dot_not_space)
  moreover have "count_list s 64 = 1"
    using seg by (simp add: s segment_count)
  moreover have "l \<noteq> [] \<and> d \<noteq> [] \<and> t \<noteq> []"
    using seg by (simp add: segment_def)
  ultimately show "local_at_domain_tld s"
    unfolding local_at_domain_tld_def using s by blast
next
  assume "local_at_domain_tld s"
  then obtain l d t where sp: "\<forall>c \<in> set s. \<not> is_space c" and one: "count_list s 64 = 1"
    and s: "s = l @ [64] @ d @ [46] @ t" and ne: "l \<noteq> []" "d \<noteq> []" "t \<noteq> []"
    unfolding local_at_domain_tld_def by blast
  from one have "count_list l 64 = 0 \<and> count_list d 64 = 0 \<and> count_list t 64 = 0"
    by (simp add: s)
  then have "64 \<notin> set l \<and> 64 \<notin> set d \<and> 64 \<notin> set t"
    by (simp add: count_list_0_iff)
  with sp ne have "segment l \<and> segment d \<and> segment t"
    by (auto simp add: s segment_def)
  then show "[] \<in> set (seq_rests emailRegex s)"
    using s by (auto simp add: emailRegex_language)
qed

lemma handler_validated:
  "passes_rate_limit req ev rl \<Longrightarrow> passes_bot_guards req ev \<Longrightarrow> has_required_fields req \<Longrightarrow>
   snd (handler req ev rl) =
     (if emailRegex_test (email (fields_of (body req))) then send_email ev (fields_of (body req))
      else [Respond 400 (ErrorJson ''Invalid email format'')])"
  by (simp add: handler_passes passes_bot_guards_def has_required_fields_def
      after_rate_limit_def validate_and_send_def Let_def)

lemma sample_email_matches: "emailRegex_test (JStr (lit ''ann@example.com''))"
  by (simp add: emailRegex_test_def emailRegex_def lit_def is_space_def)

lemma not_an_email_fails: "\<not> emailRegex_test (JStr (lit ''not-an-email''))"
  by (simp add: emailRegex_test_def emailRegex_def lit_def is_space_def)

lemma send_email_shapes:
  "(\<exists>msg d. send_email ev s =
       [Fetch msg, ConsoleError (ResendErrorLog d),
        Respond 500 (ErrorJson ''Failed to send email'')])
   \<or> (\<exists>msg i. send_email ev s = [Fetch msg, Respond 200 (SuccessIdJson i)])
   \<or> (\<exists>c. send_email ev s =
       [ConsoleError (ServerErrorLog c), Respond 500 (ErrorJson ''Server error'')])
   \<or> (\<exists>msg c. send_email ev s =
       [Fetch msg, ConsoleError (ServerErrorLog c), Respond 500 (ErrorJson ''Server error'')])"
  by (simp add: send_email_def server_error_def
      split: jsval.split relay_outcome.split relay_json.split)

section \<open>Rate limiting\<close>

text \<open>
  Claim C1. A POST from an address whose entry is in an unexpired window (at most
  \<open>RATE_LIMIT_WINDOW\<close> milliseconds after its \<open>windowStart\<close>) and whose incremented count
  exceeds \<open>RATE_LIMIT_MAX\<close> is answered 429, and that response is the handler's only effect:
  no call to the relay is made. In particular: when a POST opens a window for an address,
  every later POST from that address inside the window that has at least two POSTs from it
  in between, that is the fourth and every later one, is answered 429 without a relay
  call, whatever requests other addresses send meanwhile.
\<close>

theorem C1_over_limit_rejected:
  "(\<forall>req ev rl e.
      http_method req = lit ''POST'' \<and> rl (client_ip req) = Some e \<and>
      now_rate ev - windowStart e \<le> RATE_LIMIT_WINDOW \<and> RATE_LIMIT_MAX < count e + 1
      \<longrightarrow> snd (handler req ev rl) =
            [Respond 429 (ErrorJson ''Too many requests. Please try again later.'')]
          \<and> relay_calls (snd (handler req ev rl)) = [])
   \<and>
   (\<forall>rl r0 e0 rest i.
      http_method r0 = lit ''POST'' \<and>
      (\<forall>e. rl (client_ip r0) = Some e \<longrightarrow> RATE_LIMIT_WINDOW < now_rate e0 - windowStart e) \<and>
      i < length rest \<and>
      (\<forall>(r, ev) \<in> set (take (Suc i) rest).
          http_method r = lit ''POST'' \<and> client_ip r = client_ip r0
          \<longrightarrow> now_rate ev - now_rate e0 \<le> RATE_LIMIT_WINDOW) \<and>
      http_method (fst (rest ! i)) = lit ''POST'' \<and>
      client_ip (fst (rest ! i)) = client_ip r0 \<and>
      2 \<le> length (posts_from (client_ip r0) (take i rest))
      \<longrightarrow> snd (serve rl ((r0, e0) # rest)) ! Suc i =
            [Respond 429 (ErrorJson ''Too many requests. Please try again later.'')]
          \<and> relay_calls (snd (serve rl ((r0, e0) # rest)) ! Suc i) = [])"
proof (intro conjI allI impI, goal_cases)
  case (1 req ev rl e)
  then show ?case by (simp add: handler_over_limit)
next
  case (2 req ev rl e)
  then show ?case by (simp add: handler_over_limit relay_calls_def)
next
  case (3 rl r0 e0 rest i)
  then show ?case by (intro fourth_request_in_window) blast+
next
  case (4 rl r0 e0 rest i)
  then have "snd (serve rl ((r0, e0) # rest)) ! Suc i =
      [Respond 429 (ErrorJson ''Too many requests. Please try again later.'')]"
    by (intro fourth_request_in_window) blast+
  then show ?case by (simp only: relay_calls_def) simp
qed

text \<open>
  An entry at the limit rejects the next request; four requests from one address within
  sixty seconds, served from the empty map: the fourth is rejected.
\<close>

theorem C1_over_limit_rejected_witness:
  "snd (handler (post_from ''10.0.0.1'' (BodyObject sample_fields)) (at_time 59000 FetchRejects)
         [lit ''10.0.0.1'' \<mapsto> \<lparr>windowStart = 0, count = 3\<rparr>])
     = [Respond 429 (ErrorJson ''Too many requests. Please try again later.'')]
   \<and> snd (serve Map.empty
         [(post_from ''10.0.0.1'' (BodyObject sample_fields), at_time 0 FetchRejects),
          (post_from ''10.0.0.1'' (BodyObject sample_fields), at_time 1000 FetchRejects),
          (post_from ''10.0.0.1'' (BodyObject sample_fields), at_time 2000 FetchRejects),
          (post_from ''10.0.0.1'' (BodyObject sample_fields), at_time 60000 FetchRejects)]) ! 3
     = [Respond 429 (ErrorJson ''Too many requests. Please try again later.'')]"
proof
  show "snd (handler (post_from ''10.0.0.1'' (BodyObject sample_fields)) (at_time 59000 FetchRejects)
         [lit ''10.0.0.1'' \<mapsto> \<lparr>windowStart = 0, count = 3\<rparr>])
     = [Respond 429 (ErrorJson ''Too many requests. Please try again later.'')]"
    using C1_over_limit_rejected [THEN conjunct1, rule_format,
        of "post_from ''10.0.0.1'' (BodyObject sample_fields)"
           "[lit ''10.0.0.1'' \<mapsto> \<lparr>windowStart = 0, count = 3\<rparr>]"
           "\<lparr>windowStart = 0, count = 3\<rparr>" "at_time 59000 FetchRejects"]
    by (simp add: sample_defs RATE_LIMIT_WINDOW_def RATE_LIMIT_MAX_def)
  show "snd (serve Map.empty
         [(post_from ''10.0.0.1'' (BodyObject sample_fields), at_time 0 FetchRejects),
          (post_from ''10.0.0.1'' (BodyObject sample_fields), at_time 1000 FetchRejects),
          (post_from ''10.0.0.1'' (BodyObject sample_fields), at_time 2000 FetchRejects),
          (post_from ''10.0.0.1'' (BodyObject sample_fields), at_time 60000 FetchRejects)]) ! 3
     = [Respond 429 (ErrorJson ''Too many requests. Please try again later.'')]"
    using C1_over_limit_rejected [THEN conjunct2, rule_format,
        of "post_from ''10.0.0.1'' (BodyObject sample_fields)" Map.empty
           "at_time 0 FetchRejects" 2
           "[(post_from ''10.0.0.1'' (BodyObject sample_fields), at_time 1000 FetchRejects),
             (post_from ''10.0.0.1'' (BodyObject sample_fields), at_time 2000 FetchRejects),
             (post_from ''10.0.0.1'' (BodyObject sample_fields), at_time 60000 FetchRejects)]"]
    by (simp add: sample_defs RATE_LIMIT_WINDOW_def posts_from_def numeral_3_eq_3)
qed

text \<open>
  Claim C2, as stated, fails at the boundary: the code tests
  \<open>now - entry.windowStart > RATE_LIMIT_WINDOW\<close>, so a request arriving exactly
  \<open>RATE_LIMIT_WINDOW\<close> milliseconds after \<open>windowStart\<close> still belongs to the old window. Here
  the elapsed time equals the window length, the entry is not reset but incremented to 4,
  and the request is rejected with 429.
\<close>

theorem C2_window_boundary_counterexample:
  "RATE_LIMIT_WINDOW \<le> now_rate (at_time 60000 FetchRejects) - windowStart \<lparr>windowStart = 0, count = 3\<rparr>
   \<and> handler (post_from ''10.0.0.1'' (BodyObject sample_fields)) (at_time 60000 FetchRejects)
         [lit ''10.0.0.1'' \<mapsto> \<lparr>windowStart = 0, count = 3\<rparr>]
       = ([lit ''10.0.0.1'' \<mapsto> \<lparr>windowStart = 0, count = 4\<rparr>],
          [Respond 429 (ErrorJson ''Too many requests. Please try again later.'')])"
  by (simp add: handler_def isRateLimited_def sample_defs RATE_LIMIT_WINDOW_def
      RATE_LIMIT_MAX_def)

text \<open>
  Claim C2, amended. For every POST, if the address has no entry, or the time elapsed since
  the entry's \<open>windowStart\<close> is strictly greater than \<open>RATE_LIMIT_WINDOW\<close>, the entry becomes
  a fresh window starting now with count 1, and the request proceeds past the guard: the
  rest of the pipeline decides the response, which is never 429.
\<close>

theorem C2_expired_window_resets:
  assumes "http_method req = lit ''POST''"
    and "\<forall>e. rl (client_ip req) = Some e
           \<longrightarrow> RATE_LIMIT_WINDOW < now_rate ev - windowStart e"
  shows "fst (handler req ev rl) =
           rl(client_ip req \<mapsto> \<lparr>windowStart = now_rate ev, count = 1\<rparr>)
         \<and> snd (handler req ev rl) = after_rate_limit req ev
         \<and> (\<forall>b. Respond 429 b \<notin> set (snd (handler req ev rl)))"
  using assms by (simp add: handler_post isRateLimited_fresh after_rate_limit_no_429)

text \<open>One millisecond past the window, an entry at the limit is reset.\<close>

theorem C2_expired_window_resets_witness:
  "fst (handler (post_from ''10.0.0.1'' BodyUndefined) (at_time 60001 FetchRejects)
         [lit ''10.0.0.1'' \<mapsto> \<lparr>windowStart = 0, count = 3\<rparr>])
     = [lit ''10.0.0.1'' \<mapsto> \<lparr>windowStart = 60001, count = 1\<rparr>]
   \<and> snd (handler (post_from ''10.0.0.1'' BodyUndefined) (at_time 60001 FetchRejects)
         [lit ''10.0.0.1'' \<mapsto> \<lparr>windowStart = 0, count = 3\<rparr>])
     = [ConsoleError (MissingFieldsLog False False False BodyUndefined),
        Respond 400 (ErrorDetailsJson ''Missing required fields'' False False False)]"
  using C2_expired_window_resets
    [of "post_from ''10.0.0.1'' BodyUndefined"
        "[lit ''10.0.0.1'' \<mapsto> \<lparr>windowStart = 0, count = 3\<rparr>]"
        "at_time 60001 FetchRejects"]
  by (simp add: sample_defs RATE_LIMIT_WINDOW_def after_rate_limit_def
      validate_and_send_def no_fields_def too_fast_def)

text \<open>
  Claim C7. After any request: an entry of the requesting address whose count exceeds
  \<open>RATE_LIMIT_MAX\<close> means this request was rejected with 429; while the window is unexpired
  the entry keeps its \<open>windowStart\<close> and only its count advances; the entry is replaced by a
  fresh one when there was none or more than \<open>RATE_LIMIT_WINDOW\<close> has elapsed since the
  stored \<open>windowStart\<close>; entries of other addresses are untouched, and a request that is
  not a POST leaves the map as it was. This holds from every map, reachable or not.
\<close>

theorem C7_count_and_window:
  "(http_method req \<noteq> lit ''POST'' \<longrightarrow> fst (handler req ev rl) = rl)
   \<and> (http_method req = lit ''POST'' \<longrightarrow>
        (\<forall>e'. fst (handler req ev rl) (client_ip req) = Some e' \<and> RATE_LIMIT_MAX < count e'
           \<longrightarrow> snd (handler req ev rl) =
                 [Respond 429 (ErrorJson ''Too many requests. Please try again later.'')])
        \<and> (\<forall>e. rl (client_ip req) = Some e \<and>
                now_rate ev - windowStart e \<le> RATE_LIMIT_WINDOW
           \<longrightarrow> fst (handler req ev rl) (client_ip req) = Some (e\<lparr>count := count e + 1\<rparr>))
        \<and> ((\<forall>e. rl (client_ip req) = Some e
                \<longrightarrow> RATE_LIMIT_WINDOW < now_rate ev - windowStart e)
           \<longrightarrow> fst (handler req ev rl) (client_ip req) =
                 Some \<lparr>windowStart = now_rate ev, count = 1\<rparr>))
   \<and> (\<forall>a. a \<noteq> client_ip req \<longrightarrow> fst (handler req ev rl) a = rl a)"
proof (intro conjI allI impI, goal_cases)
  case 1
  then show ?case by (simp add: handler_def)
next
  case (2 e')
  then show ?case
    by (auto simp add: handler_post isRateLimited_def Let_def RATE_LIMIT_MAX_def
        split: option.splits if_splits)
next
  case (3 e)
  then show ?case by (simp add: handler_map_in_window)
next
  case 4
  then show ?case by (simp add: handler_post isRateLimited_fresh)
next
  case (5 a)
  then show ?case using handler_map_other [of req a ev rl] by simp
qed

text \<open>
  At the last instant of a window the count advances and \<open>windowStart\<close> stays; the entry
  of another address is left alone.
\<close>

theorem C7_count_and_window_witness:
  "fst (handler (post_from ''10.0.0.1'' BodyUndefined) (at_time 60000 FetchRejects)
         [lit ''10.0.0.1'' \<mapsto> \<lparr>windowStart = 0, count = 2\<rparr>]) (lit ''10.0.0.1'')
     = Some \<lparr>windowStart = 0, count = 3\<rparr>
   \<and> fst (handler (post_from ''10.0.0.1'' BodyUndefined) (at_time 60000 FetchRejects)
         [lit ''10.0.0.2'' \<mapsto> \<lparr>windowStart = 0, count = 7\<rparr>]) (lit ''10.0.0.2'')
     = Some \<lparr>windowStart = 0, count = 7\<rparr>"
proof
  show "fst (handler (post_from ''10.0.0.1'' BodyUndefined) (at_time 60000 FetchRejects)
         [lit ''10.0.0.1'' \<mapsto> \<lparr>windowStart = 0, count = 2\<rparr>]) (lit ''10.0.0.1'')
     = Some \<lparr>windowStart = 0, count = 3\<rparr>"
    using C7_count_and_window
      [of "post_from ''10.0.0.1'' BodyUndefined" "at_time 60000 FetchRejects"
          "[lit ''10.0.0.1'' \<mapsto> \<lparr>windowStart = 0, count = 2\<rparr>]",
       THEN conjunct2, THEN conjunct1, rule_format, THEN conjunct2, THEN conjunct1,
       rule_format, of "\<lparr>windowStart = 0, count = 2\<rparr>"]
    by (simp add: sample_defs RATE_LIMIT_WINDOW_def)
  show "fst (handler (post_from ''10.0.0.1'' BodyUndefined) (at_time 60000 FetchRejects)
         [lit ''10.0.0.2'' \<mapsto> \<lparr>windowStart = 0, count = 7\<rparr>]) (lit ''10.0.0.2'')
     = Some \<lparr>windowStart = 0, count = 7\<rparr>"
    using C7_count_and_window
      [of "post_from ''10.0.0.1'' BodyUndefined" "at_time 60000 FetchRejects"
          "[lit ''10.0.0.2'' \<mapsto> \<lparr>windowStart = 0, count = 7\<rparr>]",
       THEN conjunct2, THEN conjunct2, rule_format, of "lit ''10.0.0.2''"]
    by (simp add: sample_defs)
qed

section \<open>Bot filters\<close>



text \<open>
  Claim C10. When the string form of \<open>timestamp\<close> has no leading integer, \<open>parseInt\<close> gives
  NaN and the timestamp check does not fire. The request is handled as without the field:
  unless the honeypot fired, it goes on to required-field validation; the response, the
  relay call and the rate-limit map are those of the same request with \<open>timestamp\<close>
  removed. (The log entry of a missing-field rejection echoes \<open>req.body\<close>, so the entries
  differ in that echo only.)
\<close>

theorem C10_unparseable_timestamp_ignored:
  assumes "passes_rate_limit req ev rl"
    and "parseInt (toString (timestamp (fields_of (body req)))) = None"
  shows "\<not> too_fast (now_submit ev) (timestamp (fields_of (body req)))
         \<and> snd (handler req ev rl) =
             (if truthy (website (fields_of (body req))) then [Respond 200 SuccessJson]
              else validate_and_send req ev)
         \<and> filter (\<lambda>e. \<not> is_log e) (snd (handler req ev rl)) =
             filter (\<lambda>e. \<not> is_log e)
               (snd (handler
                  (req\<lparr>body := BodyObject ((fields_of (body req))\<lparr>timestamp := JUndefined\<rparr>)\<rparr>)
                  ev rl))
         \<and> fst (handler req ev rl) =
             fst (handler
                  (req\<lparr>body := BodyObject ((fields_of (body req))\<lparr>timestamp := JUndefined\<rparr>)\<rparr>)
                  ev rl)"
proof -
  let ?f = "fields_of (body req)"
  let ?req' = "req\<lparr>body := BodyObject (?f\<lparr>timestamp := JUndefined\<rparr>)\<rparr>"
  have nf: "\<not> too_fast (now_submit ev) (timestamp ?f)"
    using assms(2) by (simp add: too_fast_def)
  have h: "snd (handler req ev rl) =
             (if truthy (website ?f) then [Respond 200 SuccessJson] else validate_and_send req ev)"
    using assms(1) nf by (simp add: handler_passes after_rate_limit_def Let_def)
  have p': "passes_rate_limit ?req' ev rl"
    using assms(1) by (simp add: passes_rate_limit_def client_ip_def)
  have h': "snd (handler ?req' ev rl) =
             (if truthy (website ?f) then [Respond 200 SuccessJson]
              else validate_and_send ?req' ev)"
    using p' by (simp add: handler_passes after_rate_limit_def Let_def too_fast_def)
  have v: "filter (\<lambda>e. \<not> is_log e) (validate_and_send req ev) =
           filter (\<lambda>e. \<not> is_log e) (validate_and_send ?req' ev)"
    by (simp add: validate_and_send_def Let_def send_email_timestamp)
  have m: "fst (handler req ev rl) = fst (handler ?req' ev rl)"
    using assms(1) by (simp add: passes_rate_limit_def handler_post client_ip_def)
  show ?thesis using nf h h' v m by simp
qed

text \<open>The timestamp \<open>soon\<close> does not stop an empty submission from being validated.\<close>

theorem C10_unparseable_timestamp_ignored_witness:
  "\<not> too_fast 5000 (JStr (lit ''soon''))
   \<and> snd (handler (post_from ''10.0.0.1''
              (BodyObject (no_fields\<lparr>timestamp := JStr (lit ''soon'')\<rparr>)))
         (at_time 5000 FetchRejects) Map.empty)
     = [ConsoleError (MissingFieldsLog False False False
          (BodyObject (no_fields\<lparr>timestamp := JStr (lit ''soon'')\<rparr>))),
        Respond 400 (ErrorDetailsJson ''Missing required fields'' False False False)]"
proof -
  have p: "parseInt (lit ''soon'') = None"
    by (simp add: parseInt_def lit_def is_space_def is_digit_def)
  show ?thesis
    using C10_unparseable_timestamp_ignored
      [of "post_from ''10.0.0.1'' (BodyObject (no_fields\<lparr>timestamp := JStr (lit ''soon'')\<rparr>))"
          "at_time 5000 FetchRejects" Map.empty] p
    by (simp add: passes_rate_limit_def isRateLimited_def validate_and_send_def
        no_fields_def post_from_def at_time_def client_ip_def header_or_def)
qed

section \<open>Validation\<close>

text \<open>
  Claim C4. For a POST that passes the rate limiter, the honeypot check and the timestamp
  check: if any of \<open>name\<close>, \<open>email\<close>, \<open>message\<close> is absent or empty (falsy), the handler logs
  the rejection and responds 400 with \<open>details\<close> holding, for each of the three fields,
  \<open>true\<close> when it is present and \<open>false\<close> when it is missing. No relay call is made.
\<close>

theorem C4_missing_fields_rejected:
  assumes "passes_rate_limit req ev rl"
    and "passes_bot_guards req ev"
    and "\<not> truthy (name (fields_of (body req))) \<or> \<not> truthy (email (fields_of (body req)))
         \<or> \<not> truthy (message (fields_of (body req)))"
  shows "snd (handler req ev rl) =
           [ConsoleError (MissingFieldsLog (truthy (name (fields_of (body req))))
              (truthy (email (fields_of (body req)))) (truthy (message (fields_of (body req))))
              (body req)),
            Respond 400 (ErrorDetailsJson ''Missing required fields''
              (truthy (name (fields_of (body req)))) (truthy (email (fields_of (body req))))
              (truthy (message (fields_of (body req)))))]
         \<and> relay_calls (snd (handler req ev rl)) = []"
  using assms
  by (auto simp add: handler_passes passes_bot_guards_def after_rate_limit_def
      validate_and_send_def relay_calls_def Let_def)

text \<open>An empty \<open>email\<close> beside a name and a message.\<close>

theorem C4_missing_fields_rejected_witness:
  "snd (handler (post_from ''10.0.0.1'' (BodyObject (sample_fields\<lparr>email := JStr []\<rparr>)))
         (at_time 5000 FetchRejects) Map.empty)
     = [ConsoleError (MissingFieldsLog True False True
          (BodyObject (sample_fields\<lparr>email := JStr []\<rparr>))),
        Respond 400 (ErrorDetailsJson ''Missing required fields'' True False True)]"
  using C4_missing_fields_rejected
    [of "post_from ''10.0.0.1'' (BodyObject (sample_fields\<lparr>email := JStr []\<rparr>))"
        "at_time 5000 FetchRejects" Map.empty]
  by (simp add: passes_rate_limit_def passes_bot_guards_def isRateLimited_def too_fast_def
      sample_defs)

text \<open>
  Claim C9. A POST that passes the rate limiter and has no body (\<open>undefined\<close>, \<open>null\<close>, the
  empty string or the empty object) gets a response: all fields count as absent, neither
  bot check fires, and the answer is 400 with all three details \<open>false\<close>, without a relay
  call.
\<close>

theorem C9_no_body_rejected:
  assumes "passes_rate_limit req ev rl"
    and "body req \<in> {BodyUndefined, BodyNull, BodyText [], BodyObject no_fields}"
  shows "snd (handler req ev rl) =
           [ConsoleError (MissingFieldsLog False False False (body req)),
            Respond 400 (ErrorDetailsJson ''Missing required fields'' False False False)]
         \<and> relay_calls (snd (handler req ev rl)) = []"
  using assms
  by (auto simp add: handler_passes after_rate_limit_def validate_and_send_def relay_calls_def
      no_fields_def too_fast_def Let_def)

text \<open>A POST without a body.\<close>

theorem C9_no_body_rejected_witness:
  "snd (handler (post_from ''10.0.0.1'' BodyUndefined) (at_time 5000 FetchRejects) Map.empty)
     = [ConsoleError (MissingFieldsLog False False False BodyUndefined),
        Respond 400 (ErrorDetailsJson ''Missing required fields'' False False False)]"
  using C9_no_body_rejected
    [of "post_from ''10.0.0.1'' BodyUndefined" "at_time 5000 FetchRejects" Map.empty]
  by (simp add: passes_rate_limit_def isRateLimited_def sample_defs)

text \<open>
  Claim C5. For a POST that passes all earlier guards and has \<open>name\<close>, \<open>email\<close> and
  \<open>message\<close>: if the string form of \<open>email\<close> is not of the shape \<open>local@domain.tld\<close>
  (\<open>local_at_domain_tld\<close>: no white space, exactly one \<open>@\<close>, a \<open>.\<close> after it, non-empty
  segments), the response is 400 \<open>Invalid email format\<close> and no relay call is made;
  if it is, the handler goes on to the dispatch (\<open>send_email\<close>).
\<close>

theorem C5_email_format_checked:
  assumes "passes_rate_limit req ev rl"
    and "passes_bot_guards req ev"
    and "has_required_fields req"
  shows "(\<not> local_at_domain_tld (toString (email (fields_of (body req))))
            \<longrightarrow> snd (handler req ev rl) = [Respond 400 (ErrorJson ''Invalid email format'')]
                \<and> relay_calls (snd (handler req ev rl)) = [])
         \<and> (local_at_domain_tld (toString (email (fields_of (body req))))
            \<longrightarrow> snd (handler req ev rl) = send_email ev (fields_of (body req)))"
  using assms
  by (simp add: handler_validated emailRegex_test_def emailRegex_shape relay_calls_def)

text \<open>\<open>not-an-email\<close> is rejected, \<open>ann@example.com\<close> reaches the dispatch.\<close>

theorem C5_email_format_checked_witness:
  "snd (handler (post_from ''10.0.0.1''
            (BodyObject (sample_fields\<lparr>email := JStr (lit ''not-an-email'')\<rparr>)))
         (at_time 5000 FetchRejects) Map.empty)
     = [Respond 400 (ErrorJson ''Invalid email format'')]
   \<and> snd (handler (post_from ''10.0.0.1'' (BodyObject sample_fields))
         (at_time 5000 FetchRejects) Map.empty)
     = send_email (at_time 5000 FetchRejects) sample_fields"
proof
  have "\<not> local_at_domain_tld (lit ''not-an-email'')"
    using not_an_email_fails by (simp add: emailRegex_test_def emailRegex_shape)
  then show "snd (handler (post_from ''10.0.0.1''
            (BodyObject (sample_fields\<lparr>email := JStr (lit ''not-an-email'')\<rparr>)))
         (at_time 5000 FetchRejects) Map.empty)
     = [Respond 400 (ErrorJson ''Invalid email format'')]"
    using C5_email_format_checked
      [of "post_from ''10.0.0.1''
            (BodyObject (sample_fields\<lparr>email := JStr (lit ''not-an-email'')\<rparr>))"
          "at_time 5000 FetchRejects" Map.empty]
    by (simp add: passes_rate_limit_def passes_bot_guards_def has_required_fields_def
        isRateLimited_def too_fast_def post_from_def at_time_def sample_fields_def
        client_ip_def header_or_def) (simp add: lit_def)
  have "local_at_domain_tld (lit ''ann@example.com'')"
    using sample_email_matches by (simp add: emailRegex_test_def emailRegex_shape)
  then show "snd (handler (post_from ''10.0.0.1'' (BodyObject sample_fields))
         (at_time 5000 FetchRejects) Map.empty)
     = send_email (at_time 5000 FetchRejects) sample_fields"
    using C5_email_format_checked
      [of "post_from ''10.0.0.1'' (BodyObject sample_fields)"
          "at_time 5000 FetchRejects" Map.empty]
    by (simp add: passes_rate_limit_def passes_bot_guards_def has_required_fields_def
        isRateLimited_def too_fast_def post_from_def at_time_def sample_fields_def
        client_ip_def header_or_def) (simp add: lit_def)
qed

section \<open>Relay dispatch\<close>



section \<open>Logging\<close>

text \<open>
  Claim C8, as stated, fails: the 405, 429 and \<open>Invalid email format\<close> responses are
  returned without any \<open>console.error\<close> call. Here a GET request is answered 405 and
  nothing is logged.
\<close>

theorem C8_unlogged_errors_counterexample:
  "snd (handler (post_from ''10.0.0.1'' BodyUndefined\<lparr>http_method := lit ''GET''\<rparr>)
         (at_time 5000 FetchRejects) Map.empty)
     = [Respond 405 (ErrorJson ''Method not allowed'')]
   \<and> error_logs (snd (handler (post_from ''10.0.0.1'' BodyUndefined\<lparr>http_method := lit ''GET''\<rparr>)
         (at_time 5000 FetchRejects) Map.empty)) = []"
  by (simp add: handler_def post_from_def lit_def error_logs_def)

text \<open>
  Claim C8, amended. Every invocation has one of nine effect sequences. A log entry is
  written, before the response, exactly on three kinds of error response: 400
  \<open>Missing required fields\<close>, 500 \<open>Failed to send email\<close> and 500 \<open>Server error\<close>. The
  405, 429 and 400 \<open>Invalid email format\<close> responses are returned without a log entry,
  as are the silent acceptance of the two bot paths and the success response.
\<close>

theorem C8_logged_paths:
  "snd (handler req ev rl) = [Respond 405 (ErrorJson ''Method not allowed'')]
   \<or> snd (handler req ev rl) =
        [Respond 429 (ErrorJson ''Too many requests. Please try again later.'')]
   \<or> snd (handler req ev rl) = [Respond 200 SuccessJson]
   \<or> (\<exists>n e m. snd (handler req ev rl) =
        [ConsoleError (MissingFieldsLog n e m (body req)),
         Respond 400 (ErrorDetailsJson ''Missing required fields'' n e m)])
   \<or> snd (handler req ev rl) = [Respond 400 (ErrorJson ''Invalid email format'')]
   \<or> (\<exists>msg d. snd (handler req ev rl) =
        [Fetch msg, ConsoleError (ResendErrorLog d),
         Respond 500 (ErrorJson ''Failed to send email'')])
   \<or> (\<exists>msg i. snd (handler req ev rl) = [Fetch msg, Respond 200 (SuccessIdJson i)])
   \<or> (\<exists>c. snd (handler req ev rl) =
        [ConsoleError (ServerErrorLog c), Respond 500 (ErrorJson ''Server error'')])
   \<or> (\<exists>msg c. snd (handler req ev rl) =
        [Fetch msg, ConsoleError (ServerErrorLog c), Respond 500 (ErrorJson ''Server error'')])"
proof (cases "http_method req = lit ''POST''")
  case False
  then show ?thesis by (simp add: handler_def)
next
  case post: True
  show ?thesis
  proof (cases "snd (isRateLimited (client_ip req) (now_rate ev) rl)")
    case True
    with post show ?thesis by (simp add: handler_post)
  next
    case False
    with post have h: "snd (handler req ev rl) = after_rate_limit req ev"
      by (simp add: handler_post)
    have "after_rate_limit req ev = [Respond 200 SuccessJson]
        \<or> (\<exists>n e m. after_rate_limit req ev =
             [ConsoleError (MissingFieldsLog n e m (body req)),
              Respond 400 (ErrorDetailsJson ''Missing required fields'' n e m)])
        \<or> after_rate_limit req ev = [Respond 400 (ErrorJson ''Invalid email format'')]
        \<or> after_rate_limit req ev = send_email ev (fields_of (body req))"
      by (simp add: after_rate_limit_def validate_and_send_def Let_def)
    then consider
        (bot) "after_rate_limit req ev = [Respond 200 SuccessJson]"
      | (missing) "\<exists>n e m. after_rate_limit req ev =
             [ConsoleError (MissingFieldsLog n e m (body req)),
              Respond 400 (ErrorDetailsJson ''Missing required fields'' n e m)]"
      | (invalid) "after_rate_limit req ev = [Respond 400 (ErrorJson ''Invalid email format'')]"
      | (send) "after_rate_limit req ev = send_email ev (fields_of (body req))"
      by blast
    then show ?thesis
    proof cases
      case bot
      then show ?thesis by (simp add: h)
    next
      case missing
      then show ?thesis by (simp add: h)
    next
      case invalid
      then show ?thesis by (simp add: h)
    next
      case send
      then have "snd (handler req ev rl) = send_email ev (fields_of (body req))"
        by (simp add: h)
      with send_email_shapes [of ev "fields_of (body req)"] show ?thesis
        by (simp only:) blast
    qed
  qed
qed

text \<open>A POST without a body: the rejection is logged, then answered.\<close>

theorem C8_logged_paths_witness:
  "snd (handler (post_from ''10.0.0.1'' BodyUndefined) (at_time 5000 FetchRejects) Map.empty)
     = [ConsoleError (MissingFieldsLog False False False BodyUndefined),
        Respond 400 (ErrorDetailsJson ''Missing required fields'' False False False)]"
  using C8_logged_paths
    [of "post_from ''10.0.0.1'' BodyUndefined" "at_time 5000 FetchRejects" Map.empty]
  by (simp add: handler_def isRateLimited_def after_rate_limit_def validate_and_send_def
      too_fast_def no_fields_def sample_defs)

end
